theory Spec2Isabelle
  imports Complex_Main "HOL-Library.Product_Lexorder"
begin

section \<open>Rate limiting middleware (src/middleware/rateLimit.js)\<close>

text \<open>
  The module keeps one process-wide \<^verbatim>\<open>storage = new Map()\<close> from a key to an array of
  entries \<^verbatim>\<open>{ timestamp }\<close>. An entry carries nothing but its timestamp, so an entry is
  modelled by the timestamp itself (milliseconds, as \<^verbatim>\<open>Date.now()\<close> gives them), and the
  storage is threaded through explicitly. \<^verbatim>\<open>Date.now()\<close> is the parameter \<open>now\<close>.
  The limit object \<^verbatim>\<open>{ max, window }\<close> comes from the configuration module; it is a
  parameter of \<open>checkLimit\<close>, as in the source.
\<close>

type_synonym rl_storage = "string \<rightharpoonup> int list"

record limit_cfg =
  limit_max :: int
  limit_window :: int

record decision =
  allowed :: bool
  remaining :: int
  limit :: int
  resetAt :: int
  retryAfter :: int

text \<open>\<^verbatim>\<open>storage.get(key) || []\<close>: an absent key reads as the empty array.\<close>

definition entries_of :: "rl_storage \<Rightarrow> string \<Rightarrow> int list" where
  "entries_of storage key = (case storage key of None \<Rightarrow> [] | Some es \<Rightarrow> es)"

text \<open>\<^verbatim>\<open>Math.min(...entries.map(e => e.timestamp))\<close>, used on a non-empty array only.\<close>

definition oldest_of :: "int list \<Rightarrow> int" where
  "oldest_of es = fold min (tl es) (hd es)"

text \<open>\<^verbatim>\<open>Math.ceil(x / 1000)\<close> on an integer number of milliseconds.\<close>

definition ceil_seconds :: "int \<Rightarrow> int" where
  "ceil_seconds x = - ((- x) div 1000)"

definition checkLimit :: "int \<Rightarrow> string \<Rightarrow> limit_cfg \<Rightarrow> rl_storage \<Rightarrow> decision \<times> rl_storage" where
  "checkLimit now key lmt storage =
     (let windowStart = now - limit_window lmt * 1000;
          entries = filter (\<lambda>e. e \<ge> windowStart) (entries_of storage key);
          count = int (length entries);
          allowedv = (count < limit_max lmt);
          remainingv = max 0 (limit_max lmt - count - (if allowedv then 1 else 0));
          resetAtv = (if length entries > 0
                      then oldest_of entries + limit_window lmt * 1000
                      else now + limit_window lmt * 1000);
          retryAfterv = (if length entries > 0 then ceil_seconds (resetAtv - now) else 0);
          storage' = (if allowedv then storage(key \<mapsto> entries @ [now]) else storage)
      in (\<lparr> allowed = allowedv, remaining = remainingv, limit = limit_max lmt,
            resetAt = resetAtv, retryAfter = (if allowedv then 0 else retryAfterv) \<rparr>,
          storage'))"

text \<open>
  A run of checks of one key at the instants \<open>ts\<close>, in order: the decisions they report.
\<close>

fun checks :: "string \<Rightarrow> limit_cfg \<Rightarrow> int list \<Rightarrow> rl_storage \<Rightarrow> decision list" where
  "checks key lmt [] storage = []"
| "checks key lmt (t # ts) storage =
     (case checkLimit t key lmt storage of (d, storage') \<Rightarrow> d # checks key lmt ts storage')"

text \<open>
  The instants of a run lie within one window when every earlier instant is still inside
  the window \<^verbatim>\<open>[now - window * 1000, now]\<close> of every later one.
\<close>

definition within_one_window :: "limit_cfg \<Rightarrow> int list \<Rightarrow> bool" where
  "within_one_window lmt ts =
     sorted_wrt (\<lambda>earlier later. later - limit_window lmt * 1000 \<le> earlier) ts"

section \<open>The relational store (scripts/schema.sql, config/database.js)\<close>

text \<open>
  The tables the vote ledger and the comment listing touch, as lists of rows, with the
  columns the modelled statements read or write. Keys are UUIDs in the schema: the driver
  hands them over as non-empty strings, which the code only ever compares for equality and
  tests against \<^verbatim>\<open>null\<close>. They are numbers here, as in the specification's examples; a number
  stands for a UUID string, so every key is a truthy value.
  Timestamps are integers. \<^verbatim>\<open>SMALLINT\<close> and \<^verbatim>\<open>INTEGER\<close> columns are integers (no statement
  modelled here comes near their bounds).
\<close>

type_synonym ident = nat

record vote_row =
  v_id :: ident
  v_agent_id :: ident
  v_target_id :: ident
  v_target_type :: string
  v_value :: int

record post_row =
  p_id :: ident
  p_author_id :: ident
  p_score :: int

record comment_row =
  c_id :: ident
  c_post_id :: ident
  c_author_id :: ident
  c_parent_id :: "ident option"
  c_score :: int
  c_upvotes :: int
  c_downvotes :: int
  c_depth :: int
  c_created_at :: int

record agent_row =
  a_id :: ident
  a_name :: string
  a_karma :: int

record database =
  votes :: "vote_row list"
  posts :: "post_row list"
  comments :: "comment_row list"
  agents :: "agent_row list"

datatype error =
    BadRequestError string
  | NotFoundError string
  | DatabaseError
  | ReferenceError string

text \<open>
  The statements the modelled services send. \<^verbatim>\<open>query\<close> of the database module throws when
  the pool is not configured and rejects when the driver does; which statements do so is
  the parameter \<open>flt\<close>. Every statement goes through \<^verbatim>\<open>pool.query\<close> on its own, outside
  any \<^verbatim>\<open>BEGIN ... COMMIT\<close>, so what a statement wrote stays written when a later one
  fails: a computation returns the database it reached together with its result or error.
\<close>

datatype stmt =
    SelectPost | SelectComment | SelectVote
  | DeleteVote | UpdateVote | InsertVote
  | UpdatePostScore | UpdateCommentScore | UpdateKarma | SelectAgent
  | SelectVotes | SelectComments

type_synonym 'a dbm = "database \<Rightarrow> (error + 'a) \<times> database"

definition return_db :: "'a \<Rightarrow> 'a dbm" where
  "return_db x db = (Inr x, db)"

definition throw_db :: "error \<Rightarrow> 'a dbm" where
  "throw_db e db = (Inl e, db)"

definition bind_db :: "'a dbm \<Rightarrow> ('a \<Rightarrow> 'b dbm) \<Rightarrow> 'b dbm" where
  "bind_db m f db = (case m db of (Inl e, db') \<Rightarrow> (Inl e, db') | (Inr x, db') \<Rightarrow> f x db')"

definition query :: "(stmt \<Rightarrow> bool) \<Rightarrow> stmt \<Rightarrow> (database \<Rightarrow> 'a \<times> database) \<Rightarrow> 'a dbm" where
  "query flt s run db =
     (if flt s then (Inl DatabaseError, db) else (case run db of (r, db') \<Rightarrow> (Inr r, db')))"

definition no_faults :: "stmt \<Rightarrow> bool" where
  "no_faults s = False"

section \<open>Vote service (services/VoteService.js)\<close>

definition VOTE_UP :: int where "VOTE_UP = 1"
definition VOTE_DOWN :: int where "VOTE_DOWN = - 1"

record target =
  t_id :: ident
  t_author_id :: ident

record vote_result =
  success :: bool
  message :: string
  action :: string
  author :: "string option"

text \<open>
  \<^verbatim>\<open>getTarget\<close>: the row of the post or the comment (\<^verbatim>\<open>queryOne\<close> gives the first row or
  null), a bad request for any other target type, not found for a missing row.
\<close>

definition getTarget :: "(stmt \<Rightarrow> bool) \<Rightarrow> ident \<Rightarrow> string \<Rightarrow> target dbm" where
  "getTarget flt targetId targetType =
     bind_db
       (if targetType = ''post'' then
          query flt SelectPost (\<lambda>db.
            (map_option (\<lambda>p. \<lparr> t_id = p_id p, t_author_id = p_author_id p \<rparr>)
               (find (\<lambda>p. p_id p = targetId) (posts db)), db))
        else if targetType = ''comment'' then
          query flt SelectComment (\<lambda>db.
            (map_option (\<lambda>c. \<lparr> t_id = c_id c, t_author_id = c_author_id c \<rparr>)
               (find (\<lambda>c. c_id c = targetId) (comments db)), db))
        else throw_db (BadRequestError ''Invalid target type''))
       (\<lambda>target. case target of
            None \<Rightarrow> throw_db (NotFoundError (if targetType = ''post'' then ''Post'' else ''Comment''))
          | Some t \<Rightarrow> return_db t)"

text \<open>The four statements on the \<^verbatim>\<open>votes\<close> table.\<close>

definition same_triple :: "ident \<Rightarrow> ident \<Rightarrow> string \<Rightarrow> vote_row \<Rightarrow> bool" where
  "same_triple agentId targetId targetType v =
     (v_agent_id v = agentId \<and> v_target_id v = targetId \<and> v_target_type v = targetType)"

definition select_vote :: "ident \<Rightarrow> ident \<Rightarrow> string \<Rightarrow> database \<Rightarrow> vote_row option \<times> database" where
  "select_vote agentId targetId targetType db =
     (find (same_triple agentId targetId targetType) (votes db), db)"

definition delete_vote :: "ident \<Rightarrow> database \<Rightarrow> unit \<times> database" where
  "delete_vote vid db = ((), db\<lparr> votes := filter (\<lambda>v. v_id v \<noteq> vid) (votes db) \<rparr>)"

definition update_vote :: "ident \<Rightarrow> int \<Rightarrow> database \<Rightarrow> unit \<times> database" where
  "update_vote vid val db =
     ((), db\<lparr> votes := map (\<lambda>v. if v_id v = vid then v\<lparr> v_value := val \<rparr> else v) (votes db) \<rparr>)"

text \<open>
  The new row's \<^verbatim>\<open>id\<close> is the column default \<^verbatim>\<open>uuid_generate_v4()\<close>: a key no row has yet.
\<close>

definition fresh_vote_id :: "vote_row list \<Rightarrow> ident" where
  "fresh_vote_id rows = Suc (fold max (map v_id rows) 0)"

definition insert_vote :: "ident \<Rightarrow> ident \<Rightarrow> string \<Rightarrow> int \<Rightarrow> database \<Rightarrow> unit \<times> database" where
  "insert_vote agentId targetId targetType val db =
     ((), db\<lparr> votes := votes db @
            [\<lparr> v_id = fresh_vote_id (votes db), v_agent_id = agentId, v_target_id = targetId,
               v_target_type = targetType, v_value = val \<rparr>] \<rparr>)"

text \<open>
  \<open>CommentService.updateScore\<close> (services/CommentService.js): one \<^verbatim>\<open>UPDATE\<close> that adds
  \<open>delta\<close> to the score and \<open>voteChange\<close> to the column \<open>voteField\<close> names, and returns
  \<^verbatim>\<open>result?.score || 0\<close>.
\<close>

definition CommentService_updateScore ::
    "(stmt \<Rightarrow> bool) \<Rightarrow> ident \<Rightarrow> int \<Rightarrow> bool \<Rightarrow> int dbm" where
  "CommentService_updateScore flt commentId delta isUpvote =
     (let voteChange = (if delta > 0 then 1 else - 1) in
      query flt UpdateCommentScore (\<lambda>db.
        (case find (\<lambda>c. c_id c = commentId) (comments db) of
             None \<Rightarrow> 0
           | Some c \<Rightarrow> c_score c + delta,
         db\<lparr> comments := map (\<lambda>c.
              if c_id c = commentId then
                (if isUpvote
                 then c\<lparr> c_score := c_score c + delta, c_upvotes := c_upvotes c + voteChange \<rparr>
                 else c\<lparr> c_score := c_score c + delta, c_downvotes := c_downvotes c + voteChange \<rparr>)
              else c) (comments db) \<rparr>)))"

text \<open>
  Modelled from the spec: \<open>PostService.updateScore\<close>, whose module is not among the
  sources. The specification's external interface \<^verbatim>\<open>applyScoreDelta(targetId, delta)\<close>
  applies the delta to the target's stored score counter.
\<close>

definition PostService_updateScore :: "(stmt \<Rightarrow> bool) \<Rightarrow> ident \<Rightarrow> int \<Rightarrow> unit dbm" where
  "PostService_updateScore flt postId delta =
     query flt UpdatePostScore (\<lambda>db.
       ((), db\<lparr> posts := map (\<lambda>p. if p_id p = postId then p\<lparr> p_score := p_score p + delta \<rparr> else p)
                             (posts db) \<rparr>))"

text \<open>
  Modelled from the spec: \<open>AgentService.updateKarma\<close>, whose module is not among the
  sources. The specification's external interface \<^verbatim>\<open>applyKarmaDelta(agentId, delta)\<close>
  applies the delta to the agent's stored karma counter.
\<close>

definition AgentService_updateKarma :: "(stmt \<Rightarrow> bool) \<Rightarrow> ident \<Rightarrow> int \<Rightarrow> unit dbm" where
  "AgentService_updateKarma flt agentId delta =
     query flt UpdateKarma (\<lambda>db.
       ((), db\<lparr> agents := map (\<lambda>a. if a_id a = agentId then a\<lparr> a_karma := a_karma a + delta \<rparr> else a)
                              (agents db) \<rparr>))"

text \<open>
  Modelled from the spec: \<open>AgentService.findById\<close>, whose module is not among the sources.
  \<open>vote\<close> tests its result for null, so it gives the agent's row or null.
\<close>

definition AgentService_findById :: "(stmt \<Rightarrow> bool) \<Rightarrow> ident \<Rightarrow> agent_row option dbm" where
  "AgentService_findById flt agentId =
     query flt SelectAgent (\<lambda>db. (find (\<lambda>a. a_id a = agentId) (agents db), db))"

text \<open>
  \<open>VoteService.vote\<close>, statement by statement: the target, the self-vote guard, the stored
  vote of the triple, one write to \<^verbatim>\<open>votes\<close> with the action and the two deltas, the score
  of the target, the karma of its author, the author for the response.
\<close>

definition vote :: "(stmt \<Rightarrow> bool) \<Rightarrow> ident \<Rightarrow> string \<Rightarrow> ident \<Rightarrow> int \<Rightarrow> vote_result dbm" where
  "vote flt targetId targetType agentId val =
     bind_db (getTarget flt targetId targetType) (\<lambda>target.
       if t_author_id target = agentId
       then throw_db (BadRequestError ''Cannot vote on your own content'')
       else
         bind_db (query flt SelectVote (select_vote agentId targetId targetType)) (\<lambda>existingVote.
         bind_db
           (case existingVote of
              Some ev \<Rightarrow>
                if v_value ev = val
                then bind_db (query flt DeleteVote (delete_vote (v_id ev)))
                       (\<lambda>_. return_db (''removed'', - val, - val))
                else bind_db (query flt UpdateVote (update_vote (v_id ev) val))
                       (\<lambda>_. return_db (''changed'', val * 2, val * 2))
            | None \<Rightarrow>
                bind_db (query flt InsertVote (insert_vote agentId targetId targetType val))
                  (\<lambda>_. return_db (if val = VOTE_UP then ''upvoted'' else ''downvoted'', val, val)))
           (\<lambda>(actionv, scoreDelta, karmaDelta).
         bind_db
           (if targetType = ''post''
            then PostService_updateScore flt targetId scoreDelta
            else bind_db (CommentService_updateScore flt targetId scoreDelta (val = VOTE_UP))
                   (\<lambda>_. return_db ()))
           (\<lambda>_.
         bind_db (AgentService_updateKarma flt (t_author_id target) karmaDelta) (\<lambda>_.
         bind_db (AgentService_findById flt (t_author_id target)) (\<lambda>authorv.
         return_db
           \<lparr> success = True,
             message = (if actionv = ''upvoted'' then ''Upvoted!''
                        else if actionv = ''downvoted'' then ''Downvoted!''
                        else if actionv = ''removed'' then ''Vote removed!''
                        else ''Vote changed!''),
             action = actionv,
             author = map_option a_name authorv \<rparr>))))))"

text \<open>The four entry points.\<close>

definition upvotePost :: "(stmt \<Rightarrow> bool) \<Rightarrow> ident \<Rightarrow> ident \<Rightarrow> vote_result dbm" where
  "upvotePost flt postId agentId = vote flt postId ''post'' agentId VOTE_UP"

definition downvotePost :: "(stmt \<Rightarrow> bool) \<Rightarrow> ident \<Rightarrow> ident \<Rightarrow> vote_result dbm" where
  "downvotePost flt postId agentId = vote flt postId ''post'' agentId VOTE_DOWN"

definition upvoteComment :: "(stmt \<Rightarrow> bool) \<Rightarrow> ident \<Rightarrow> ident \<Rightarrow> vote_result dbm" where
  "upvoteComment flt commentId agentId = vote flt commentId ''comment'' agentId VOTE_UP"

definition downvoteComment :: "(stmt \<Rightarrow> bool) \<Rightarrow> ident \<Rightarrow> ident \<Rightarrow> vote_result dbm" where
  "downvoteComment flt commentId agentId = vote flt commentId ''comment'' agentId VOTE_DOWN"

text \<open>What the claims read off a database.\<close>

definition stored_votes :: "database \<Rightarrow> ident \<Rightarrow> ident \<Rightarrow> string \<Rightarrow> int list" where
  "stored_votes db agentId targetId targetType =
     map v_value (filter (same_triple agentId targetId targetType) (votes db))"

definition target_score :: "database \<Rightarrow> ident \<Rightarrow> string \<Rightarrow> int option" where
  "target_score db targetId targetType =
     (if targetType = ''post''
      then map_option p_score (find (\<lambda>p. p_id p = targetId) (posts db))
      else map_option c_score (find (\<lambda>c. c_id c = targetId) (comments db)))"

definition karma_of :: "database \<Rightarrow> ident \<Rightarrow> int option" where
  "karma_of db agentId = map_option a_karma (find (\<lambda>a. a_id a = agentId) (agents db))"






subsection \<open>Batch read\<close>

text \<open>
  The identifiers bound in the module scope of VoteService.js: the two names its first
  line destructures from the database module, the two error classes, the three services,
  the two constants and the class. Calling a name that is not among them (and is no
  global of the runtime) throws a \<^verbatim>\<open>ReferenceError\<close> when the call is evaluated.
\<close>

definition VoteService_scope :: "string list" where
  "VoteService_scope =
     [''queryOne'', ''transaction'', ''BadRequestError'', ''NotFoundError'',
      ''AgentService'', ''PostService'', ''CommentService'',
      ''VOTE_UP'', ''VOTE_DOWN'', ''VoteService'']"

definition lookup_identifier :: "string \<Rightarrow> unit dbm" where
  "lookup_identifier name =
     (if name \<in> set VoteService_scope then return_db () else throw_db (ReferenceError name))"

record vote_target =
  vt_targetId :: ident
  vt_targetType :: string

text \<open>
  The statement \<open>getVotes\<close> writes for one target type:
  \<^verbatim>\<open>SELECT target_id, value FROM votes WHERE agent_id = $1 AND target_type = ... AND target_id = ANY($2)\<close>.
\<close>

definition select_votes :: "ident \<Rightarrow> string \<Rightarrow> ident list \<Rightarrow> database \<Rightarrow> (ident \<times> int) list \<times> database" where
  "select_votes agentId ty ids db =
     (map (\<lambda>v. (v_target_id v, v_value v))
        (filter (\<lambda>v. v_agent_id v = agentId \<and> v_target_type v = ty \<and> v_target_id v \<in> set ids)
           (votes db)), db)"

definition getVotes :: "(stmt \<Rightarrow> bool) \<Rightarrow> ident \<Rightarrow> vote_target list \<Rightarrow> (ident \<rightharpoonup> int) dbm" where
  "getVotes flt agentId targets =
     (if length targets = 0 then return_db Map.empty
      else
        let postIds = map vt_targetId (filter (\<lambda>t. vt_targetType t = ''post'') targets);
            commentIds = map vt_targetId (filter (\<lambda>t. vt_targetType t = ''comment'') targets);
            results = Map.empty
        in
        bind_db
          (if length postIds > 0 then
             bind_db (lookup_identifier ''queryAll'') (\<lambda>_.
             bind_db (query flt SelectVotes (select_votes agentId ''post'' postIds)) (\<lambda>vs.
             return_db (fold (\<lambda>(t, v) m. m(t \<mapsto> v)) vs results)))
           else return_db results)
          (\<lambda>results.
        bind_db
          (if length commentIds > 0 then
             bind_db (lookup_identifier ''queryAll'') (\<lambda>_.
             bind_db (query flt SelectVotes (select_votes agentId ''comment'' commentIds)) (\<lambda>vs.
             return_db (fold (\<lambda>(t, v) m. m(t \<mapsto> v)) vs results)))
           else return_db results)
          (\<lambda>results. return_db results)))"

section \<open>Comment service (services/CommentService.js)\<close>

text \<open>
  A row of the listing query of \<open>getByPost\<close>, which is also the object \<open>buildCommentTree\<close>
  works on: the selected columns but \<^verbatim>\<open>content\<close> and \<^verbatim>\<open>author_display_name\<close>, which nothing
  modelled here reads.
\<close>

record comment_node =
  n_id :: ident
  n_score :: int
  n_upvotes :: int
  n_downvotes :: int
  n_parent_id :: "ident option"
  n_depth :: int
  n_created_at :: int
  n_author_name :: string

text \<open>
  The \<^verbatim>\<open>/\<close> of PostgreSQL on two \<^verbatim>\<open>INTEGER\<close> operands is integer division, truncating
  towards zero. The sort key of the mode \<^verbatim>\<open>controversial\<close> is
  \<^verbatim>\<open>(c.upvotes + c.downvotes) * (1 - ABS(c.upvotes - c.downvotes) / GREATEST(c.upvotes + c.downvotes, 1))\<close>
  on the \<^verbatim>\<open>INTEGER\<close> columns \<^verbatim>\<open>upvotes\<close> and \<^verbatim>\<open>downvotes\<close>.
\<close>

definition sql_div :: "int \<Rightarrow> int \<Rightarrow> int" where
  "sql_div a b = sgn a * sgn b * (\<bar>a\<bar> div \<bar>b\<bar>)"

definition controversial_key :: "int \<Rightarrow> int \<Rightarrow> int" where
  "controversial_key up down = (up + down) * (1 - sql_div \<bar>up - down\<bar> (max (up + down) 1))"

text \<open>
  The controversy score in the specification's words,
  \<^verbatim>\<open>(up+down) * (1 - |up-down| / max(up+down,1))\<close>, in exact rational arithmetic.
\<close>

definition controversy_spec :: "int \<Rightarrow> int \<Rightarrow> rat" where
  "controversy_spec up down =
     of_int (up + down) * (1 - of_int \<bar>up - down\<bar> / of_int (max (up + down) 1))"

text \<open>
  The \<^verbatim>\<open>ORDER BY\<close> clause of the listing query is \<^verbatim>\<open>c.depth ASC, ${orderBy}\<close>. A row's place is
  decided by the tuple below, compared lexicographically and ascending; a \<^verbatim>\<open>DESC\<close> column
  enters negated. \<open>mode_key\<close> is the part \<^verbatim>\<open>orderBy\<close> contributes: \<^verbatim>\<open>c.created_at DESC\<close> for
  \<^verbatim>\<open>new\<close>, the controversy expression \<^verbatim>\<open>DESC\<close> for \<^verbatim>\<open>controversial\<close>, and
  \<^verbatim>\<open>c.score DESC, c.created_at ASC\<close> for \<^verbatim>\<open>top\<close> and any other value.
\<close>

definition mode_key :: "string \<Rightarrow> comment_node \<Rightarrow> int \<times> int" where
  "mode_key sort_mode c =
     (if sort_mode = ''new'' then (- n_created_at c, 0)
      else if sort_mode = ''controversial''
        then (- controversial_key (n_upvotes c) (n_downvotes c), 0)
      else (- n_score c, n_created_at c))"

definition order_key :: "string \<Rightarrow> comment_node \<Rightarrow> int \<times> int \<times> int" where
  "order_key sort_mode c = (n_depth c, mode_key sort_mode c)"

text \<open>
  The listing query: the comments of the post joined with their authors, ordered, cut at
  \<^verbatim>\<open>LIMIT\<close>. SQL leaves the order of rows with equal keys open; the stable sort keeps them in
  table order, and no theorem below depends on that choice.
\<close>

definition select_comments :: "ident \<Rightarrow> string \<Rightarrow> nat \<Rightarrow> database \<Rightarrow> comment_node list" where
  "select_comments postId sort_mode lmt db =
     take lmt (sort_key (order_key sort_mode)
       (concat (map (\<lambda>c. map (\<lambda>a.
            \<lparr> n_id = c_id c, n_score = c_score c, n_upvotes = c_upvotes c,
              n_downvotes = c_downvotes c, n_parent_id = c_parent_id c, n_depth = c_depth c,
              n_created_at = c_created_at c, n_author_name = a_name a \<rparr>)
            (filter (\<lambda>a. a_id a = c_author_id c) (agents db)))
          (filter (\<lambda>c. c_post_id c = postId) (comments db)))))"

text \<open>
  \<open>buildCommentTree\<close> mutates the objects of its input array: it gives each a \<^verbatim>\<open>replies\<close> array and
  pushes references of children into the arrays of their parents. An object is addressed
  by its position in the input array; \<open>replies\<close> holds the \<^verbatim>\<open>replies\<close> array of each address,
  \<open>commentMap\<close> is the \<^verbatim>\<open>Map\<close> from id to object, \<open>rootComments\<close> the array returned.
  In \<^verbatim>\<open>comment.parent_id && commentMap.has(comment.parent_id)\<close> the left operand is tested
  for truthiness: \<^verbatim>\<open>parent_id\<close> is \<^verbatim>\<open>null\<close> or a UUID string, and of these only \<^verbatim>\<open>null\<close> is
  falsy, so the test is the test for \<^verbatim>\<open>null\<close>.
\<close>

record tree_state =
  commentMap :: "ident \<rightharpoonup> nat"
  replies :: "nat list list"
  rootComments :: "nat list"

definition first_pass :: "comment_node list \<Rightarrow> tree_state" where
  "first_pass cs =
     fold (\<lambda>(i, c) s. s\<lparr> replies := replies s @ [[]],
                          commentMap := (commentMap s)(n_id c \<mapsto> i) \<rparr>)
       (enumerate 0 cs)
       \<lparr> commentMap = Map.empty, replies = [], rootComments = [] \<rparr>"

definition place :: "nat \<times> comment_node \<Rightarrow> tree_state \<Rightarrow> tree_state" where
  "place ic s =
     (case ic of (i, c) \<Rightarrow>
        (case n_parent_id c of
           None \<Rightarrow> s\<lparr> rootComments := rootComments s @ [i] \<rparr>
         | Some p \<Rightarrow>
             (case commentMap s p of
                Some a \<Rightarrow> s\<lparr> replies := (replies s)[a := replies s ! a @ [i]] \<rparr>
              | None \<Rightarrow> s\<lparr> rootComments := rootComments s @ [i] \<rparr>)))"

definition buildCommentTree :: "comment_node list \<Rightarrow> tree_state" where
  "buildCommentTree cs = fold place (enumerate 0 cs) (first_pass cs)"

definition getByPost :: "(stmt \<Rightarrow> bool) \<Rightarrow> ident \<Rightarrow> string \<Rightarrow> nat \<Rightarrow> (comment_node list \<times> tree_state) dbm" where
  "getByPost flt postId sort_mode lmt =
     bind_db (query flt SelectComments (\<lambda>db. (select_comments postId sort_mode lmt db, db)))
       (\<lambda>cs. return_db (cs, buildCommentTree cs))"

text \<open>
  The conditions of the specification: a node hangs under another when a node with its
  parent id is present in the input; \<open>child_of parent c\<close> says that \<open>c\<close> names \<open>parent\<close> as
  its parent.
\<close>

definition parent_present :: "comment_node list \<Rightarrow> comment_node \<Rightarrow> bool" where
  "parent_present cs c =
     (case n_parent_id c of None \<Rightarrow> False | Some p \<Rightarrow> p \<in> set (map n_id cs))"

definition child_of :: "comment_node \<Rightarrow> comment_node \<Rightarrow> bool" where
  "child_of parent c = (n_parent_id c = Some (n_id parent))"

text \<open>
  The tree of the specification, read off the input: the root list holds the addresses
  whose node has no parent present, the \<^verbatim>\<open>replies\<close> of address \<open>i\<close> the addresses of its
  children, both in input order (cut at the first \<open>k\<close> addresses, for the proofs).
\<close>

definition expected_roots :: "comment_node list \<Rightarrow> nat \<Rightarrow> nat list" where
  "expected_roots cs k = filter (\<lambda>j. \<not> parent_present cs (cs ! j)) [0..<k]"

definition expected_replies :: "comment_node list \<Rightarrow> nat \<Rightarrow> nat \<Rightarrow> nat list" where
  "expected_replies cs k i = filter (\<lambda>j. child_of (cs ! i) (cs ! j)) [0..<k]"

text \<open>
  The ordering the specification words for the listing: the key of the sort mode first,
  the depth second.
\<close>

definition claimed_order_key :: "string \<Rightarrow> comment_node \<Rightarrow> (int \<times> int) \<times> int" where
  "claimed_order_key sort_mode c = (mode_key sort_mode c, n_depth c)"

section \<open>Example data\<close>

text \<open>
  A small database for the concrete evaluations below: one post and one comment, both by
  agent 1, a second agent 2, no votes; \<open>voted_db\<close> is \<open>example_db\<close> with agent 2's upvote of the post.
  \<open>score_update_fails\<close> is the run in which the statement that updates the post's score is
  rejected and every other statement goes through.
\<close>

definition example_db :: database where
  "example_db = \<lparr> votes = [],
           posts = [\<lparr> p_id = 10, p_author_id = 1, p_score = 0 \<rparr>],
           comments = [\<lparr> c_id = 20, c_post_id = 10, c_author_id = 1, c_parent_id = None,
                        c_score = 0, c_upvotes = 0, c_downvotes = 0, c_depth = 0,
                        c_created_at = 0 \<rparr>],
           agents = [\<lparr> a_id = 1, a_name = ''alice'', a_karma = 0 \<rparr>,
                     \<lparr> a_id = 2, a_name = ''bob'', a_karma = 0 \<rparr>] \<rparr>"

definition voted_db :: database where
  "voted_db = example_db\<lparr> votes := [\<lparr> v_id = 1, v_agent_id = 2, v_target_id = 10,
                         v_target_type = ''post'', v_value = 1 \<rparr>] \<rparr>"

definition score_update_fails :: "stmt \<Rightarrow> bool" where
  "score_update_fails s = (s = UpdatePostScore)"

text \<open>
  Inputs of \<open>buildCommentTree\<close>: the example of the specification, and a list whose first
  node names a parent that is not in the list. \<open>thread_db\<close> holds a comment of score 1 and
  a reply to it of score 5.
\<close>

definition node :: "ident \<Rightarrow> ident option \<Rightarrow> int \<Rightarrow> comment_node" where
  "node i p d = \<lparr> n_id = i, n_score = 0, n_upvotes = 0, n_downvotes = 0, n_parent_id = p,
                  n_depth = d, n_created_at = 0, n_author_name = ''alice'' \<rparr>"

definition spec_example :: "comment_node list" where
  "spec_example = [node 1 None 0, node 2 (Some 1) 1, node 3 (Some 1) 1, node 4 (Some 2) 2]"

definition orphan_example :: "comment_node list" where
  "orphan_example = [node 2 (Some 1) 1, node 4 (Some 2) 2]"

definition thread_db :: database where
  "thread_db = example_db\<lparr> comments :=
      [\<lparr> c_id = 20, c_post_id = 10, c_author_id = 1, c_parent_id = None,
         c_score = 1, c_upvotes = 1, c_downvotes = 0, c_depth = 0, c_created_at = 0 \<rparr>,
       \<lparr> c_id = 21, c_post_id = 10, c_author_id = 2, c_parent_id = Some 20,
         c_score = 5, c_upvotes = 5, c_downvotes = 0, c_depth = 1, c_created_at = 1 \<rparr>] \<rparr>"

section \<open>Properties of the rate limiter\<close>

lemma checkLimit_all_in_window:
  assumes "\<forall>e \<in> set (entries_of storage key). t - limit_window lmt * 1000 \<le> e"
  shows "allowed (fst (checkLimit t key lmt storage))
           = (int (length (entries_of storage key)) < limit_max lmt)"
    and "remaining (fst (checkLimit t key lmt storage))
           = max 0 (limit_max lmt - int (length (entries_of storage key))
                    - (if int (length (entries_of storage key)) < limit_max lmt then 1 else 0))"
    and "int (length (entries_of storage key)) < limit_max lmt \<Longrightarrow>
           entries_of (snd (checkLimit t key lmt storage)) key = entries_of storage key @ [t]"
proof -
  have f: "filter (\<lambda>e. t - limit_window lmt * 1000 \<le> e) (entries_of storage key)
             = entries_of storage key"
    using assms by (simp add: filter_id_conv)
  show "allowed (fst (checkLimit t key lmt storage))
           = (int (length (entries_of storage key)) < limit_max lmt)"
    by (simp add: checkLimit_def Let_def f)
  show "remaining (fst (checkLimit t key lmt storage))
           = max 0 (limit_max lmt - int (length (entries_of storage key))
                    - (if int (length (entries_of storage key)) < limit_max lmt then 1 else 0))"
    by (simp add: checkLimit_def Let_def f)
  show "entries_of (snd (checkLimit t key lmt storage)) key = entries_of storage key @ [t]"
    if "int (length (entries_of storage key)) < limit_max lmt"
  proof -
    have "snd (checkLimit t key lmt storage) = storage(key \<mapsto> entries_of storage key @ [t])"
      using that by (simp add: checkLimit_def Let_def f)
    then show ?thesis by (simp add: entries_of_def)
  qed
qed

lemma checks_length: "length (checks key lmt ts storage) = length ts"
  by (induction ts arbitrary: storage) (auto split: prod.splits)

lemma checks_counting:
  assumes "within_one_window lmt ts"
    and "\<forall>t \<in> set ts. \<forall>e \<in> set (entries_of storage key). t - limit_window lmt * 1000 \<le> e"
    and "int (length (entries_of storage key)) + int (length ts) \<le> limit_max lmt + 1"
    and "i < length ts"
  shows "allowed (checks key lmt ts storage ! i)
           = (int (length (entries_of storage key)) + int i < limit_max lmt)
         \<and> remaining (checks key lmt ts storage ! i)
           = max 0 (limit_max lmt - (int (length (entries_of storage key)) + int i)
                    - (if int (length (entries_of storage key)) + int i < limit_max lmt
                       then 1 else 0))"
  using assms
proof (induction ts arbitrary: storage i)
  case Nil
  then show ?case by simp
next
  case (Cons t ts)
  obtain d storage' where step: "checkLimit t key lmt storage = (d, storage')"
    by (cases "checkLimit t key lmt storage")
  have inwin: "\<forall>e \<in> set (entries_of storage key). t - limit_window lmt * 1000 \<le> e"
    using Cons.prems(2) by simp
  note here = checkLimit_all_in_window [OF inwin, unfolded step fst_conv snd_conv]
  show ?case
  proof (cases i)
    case 0
    then show ?thesis using here(1,2) step by simp
  next
    case (Suc k)
    then have k: "k < length ts" using Cons.prems(4) by simp
    then have room: "int (length (entries_of storage key)) < limit_max lmt"
      using Cons.prems(3) by simp
    have grown: "entries_of storage' key = entries_of storage key @ [t]"
      using here(3) room by simp
    have w: "within_one_window lmt ts"
      using Cons.prems(1) by (simp add: within_one_window_def)
    have inwin': "\<forall>u \<in> set ts. \<forall>e \<in> set (entries_of storage' key).
                    u - limit_window lmt * 1000 \<le> e"
      using Cons.prems(1,2) grown by (auto simp: within_one_window_def)
    have bound: "int (length (entries_of storage' key)) + int (length ts) \<le> limit_max lmt + 1"
      using Cons.prems(3) grown by simp
    have "allowed (checks key lmt ts storage' ! k)
            = (int (length (entries_of storage' key)) + int k < limit_max lmt)
          \<and> remaining (checks key lmt ts storage' ! k)
            = max 0 (limit_max lmt - (int (length (entries_of storage' key)) + int k)
                     - (if int (length (entries_of storage' key)) + int k < limit_max lmt
                        then 1 else 0))"
      by (rule Cons.IH [OF w inwin' bound k])
    then show ?thesis
      using Suc step grown by (simp add: add.assoc)
  qed
qed

text \<open>
  C3. For a limit with \<open>max \<ge> 1\<close> and a key with an empty history, \<open>max + 1\<close> checks at
  instants within one window: each of the first \<open>max\<close> is allowed, the \<open>i\<close>-th of them
  (counting from 0) reports \<open>remaining = max - 1 - i\<close>, so the value falls by one per
  admitted check from \<open>max - 1\<close> to \<open>0\<close>, and the last check, number \<open>max + 1\<close>, is denied.
\<close>

theorem checkLimit_quota:
  assumes "1 \<le> limit_max lmt"
    and "entries_of storage key = []"
    and "length ts = nat (limit_max lmt) + 1"
    and "within_one_window lmt ts"
  shows "(\<forall>i < nat (limit_max lmt).
            allowed (checks key lmt ts storage ! i)
            \<and> remaining (checks key lmt ts storage ! i) = limit_max lmt - 1 - int i)
         \<and> \<not> allowed (checks key lmt ts storage ! nat (limit_max lmt))"
proof -
  have pre2: "\<forall>t \<in> set ts. \<forall>e \<in> set (entries_of storage key). t - limit_window lmt * 1000 \<le> e"
    using assms(2) by simp
  have pre3: "int (length (entries_of storage key)) + int (length ts) \<le> limit_max lmt + 1"
    using assms(1,2,3) by simp
  have each: "i < length ts \<Longrightarrow>
      allowed (checks key lmt ts storage ! i) = (int i < limit_max lmt)
      \<and> remaining (checks key lmt ts storage ! i)
          = max 0 (limit_max lmt - int i - (if int i < limit_max lmt then 1 else 0))" for i
    using checks_counting [OF assms(4) pre2 pre3, of i] assms(2) by simp
  have "allowed (checks key lmt ts storage ! i)
          \<and> remaining (checks key lmt ts storage ! i) = limit_max lmt - 1 - int i"
    if "i < nat (limit_max lmt)" for i
  proof -
    have "i < length ts" using that assms(3) by simp
    moreover have "int i < limit_max lmt" using that by simp
    ultimately show ?thesis using each [of i] by simp
  qed
  moreover have "\<not> allowed (checks key lmt ts storage ! nat (limit_max lmt))"
    using each [of "nat (limit_max lmt)"] assms(1,3) by simp
  ultimately show ?thesis by blast
qed

theorem checkLimit_quota_witness:
  "(let lmt = \<lparr> limit_max = 2, limit_window = 60 \<rparr>;
        ds = checks ''k'' lmt [0, 1000, 2000] Map.empty
    in map allowed ds = [True, True, False] \<and> map remaining ds = [1, 0, 0]
       \<and> retryAfter (ds ! 2) = 58
       \<and> \<not> allowed (ds ! nat (limit_max lmt)))"
proof -
  define lmt where "lmt = \<lparr> limit_max = 2, limit_window = 60 \<rparr>"
  have s1: "checkLimit 0 ''k'' lmt Map.empty
      = (\<lparr> allowed = True, remaining = 1, limit = 2, resetAt = 60000, retryAfter = 0 \<rparr>,
         [''k'' \<mapsto> [0]])"
    by (simp add: checkLimit_def entries_of_def lmt_def)
  have s2: "checkLimit 1000 ''k'' lmt [''k'' \<mapsto> [0]]
      = (\<lparr> allowed = True, remaining = 0, limit = 2, resetAt = 60000, retryAfter = 0 \<rparr>,
         [''k'' \<mapsto> [0, 1000]])"
    by (simp add: checkLimit_def entries_of_def oldest_of_def lmt_def)
  have s3: "checkLimit 2000 ''k'' lmt [''k'' \<mapsto> [0, 1000]]
      = (\<lparr> allowed = False, remaining = 0, limit = 2, resetAt = 60000, retryAfter = 58 \<rparr>,
         [''k'' \<mapsto> [0, 1000]])"
    by (simp add: checkLimit_def entries_of_def oldest_of_def ceil_seconds_def lmt_def)
  have run: "checks ''k'' lmt [0, 1000, 2000] Map.empty
      = [\<lparr> allowed = True, remaining = 1, limit = 2, resetAt = 60000, retryAfter = 0 \<rparr>,
         \<lparr> allowed = True, remaining = 0, limit = 2, resetAt = 60000, retryAfter = 0 \<rparr>,
         \<lparr> allowed = False, remaining = 0, limit = 2, resetAt = 60000, retryAfter = 58 \<rparr>]"
    by (simp add: s1 s2 s3)
  have pre: "1 \<le> limit_max lmt" "entries_of Map.empty ''k'' = []"
    "length [0, 1000, 2000 :: int] = nat (limit_max lmt) + 1"
    "within_one_window lmt [0, 1000, 2000]"
    by (simp_all add: lmt_def entries_of_def within_one_window_def)
  show ?thesis
    using checkLimit_quota [OF pre] unfolding Let_def lmt_def [symmetric] run
    by (simp add: lmt_def)
qed

text \<open>
  C4. A denied check leaves the whole storage as it was, so the history of its key gains
  no event, and any check made next (at any instant, of any key and limit) answers and
  stores exactly what it would have had the denied check never been made.
\<close>

theorem checkLimit_denied_frame:
  assumes "\<not> allowed (fst (checkLimit now key lmt storage))"
  shows "snd (checkLimit now key lmt storage) = storage
         \<and> entries_of (snd (checkLimit now key lmt storage)) key = entries_of storage key
         \<and> checkLimit now' key' lmt' (snd (checkLimit now key lmt storage))
             = checkLimit now' key' lmt' storage"
proof -
  have "snd (checkLimit now key lmt storage) = storage"
    using assms by (simp add: checkLimit_def Let_def)
  then show ?thesis by simp
qed

theorem checkLimit_denied_frame_witness:
  "(let lmt = \<lparr> limit_max = 1, limit_window = 60 \<rparr>;
        storage = [''k'' \<mapsto> [0]]
    in \<not> allowed (fst (checkLimit 1000 ''k'' lmt storage))
       \<and> snd (checkLimit 1000 ''k'' lmt storage) = storage
       \<and> remaining (fst (checkLimit 2000 ''k'' lmt (snd (checkLimit 1000 ''k'' lmt storage))))
           = remaining (fst (checkLimit 2000 ''k'' lmt storage)))"
proof -
  have d: "\<not> allowed (fst (checkLimit 1000 ''k'' \<lparr> limit_max = 1, limit_window = 60 \<rparr> [''k'' \<mapsto> [0]]))"
    by (simp add: checkLimit_def entries_of_def Let_def)
  show ?thesis
    unfolding Let_def
    using checkLimit_denied_frame [OF d, of 2000 "''k''" "\<lparr> limit_max = 1, limit_window = 60 \<rparr>"] d
    by simp
qed

section \<open>Properties of the vote service\<close>


lemma find_map_preserving:
  assumes "\<And>x. P (f x) = P x"
  shows "find P (map f xs) = map_option f (find P xs)"
  using assms by (induction xs) auto

lemma getTarget_keeps_db: "snd (getTarget flt targetId targetType db) = db"
  by (simp add: getTarget_def bind_db_def query_def throw_db_def return_db_def
      split: option.splits prod.splits sum.splits)

lemma getTarget_Inr:
  "fst (getTarget flt targetId targetType db) = Inr target \<Longrightarrow>
   getTarget flt targetId targetType db = (Inr target, db)"
  using getTarget_keeps_db [of flt targetId targetType db]
  by (cases "getTarget flt targetId targetType db") simp

text \<open>
  C10. When the voting agent is the author of the target, \<open>vote\<close> fails with the bad-request
  error of the self-vote guard and the database it leaves is the database it found: no
  vote row is created, updated or deleted, and no score and no karma changes. This holds
  whichever later statements would have failed.
\<close>

theorem vote_self_rejected:
  assumes "fst (getTarget flt targetId targetType db) = Inr target"
    and "t_author_id target = agentId"
  shows "vote flt targetId targetType agentId val db
           = (Inl (BadRequestError ''Cannot vote on your own content''), db)"
  using getTarget_Inr [OF assms(1)] assms(2)
  by (simp add: vote_def bind_db_def throw_db_def)

theorem vote_self_rejected_witness:
  "fst (getTarget no_faults 10 ''post'' example_db) = Inr \<lparr> t_id = 10, t_author_id = 1 \<rparr>
   \<and> vote no_faults 10 ''post'' 1 VOTE_UP example_db
       = (Inl (BadRequestError ''Cannot vote on your own content''), example_db)"
proof -
  have tgt: "fst (getTarget no_faults 10 ''post'' example_db) = Inr \<lparr> t_id = 10, t_author_id = 1 \<rparr>"
    by (simp add: getTarget_def bind_db_def query_def no_faults_def return_db_def example_db_def)
  have self: "t_author_id \<lparr> t_id = 10, t_author_id = 1 \<rparr> = (1::nat)" by simp
  show ?thesis using vote_self_rejected [OF tgt self, of VOTE_UP] tgt by simp
qed




















text \<open>
  C2. The three effects of a vote are not one unit in the code: when the statement that
  updates the post's score is rejected after the vote row was inserted, \<open>vote\<close> fails with
  the row stored and neither the score nor the karma changed.
\<close>

theorem vote_not_atomic:
  "vote score_update_fails 10 ''post'' 2 VOTE_UP example_db
     = (Inl DatabaseError,
        example_db\<lparr> votes := [\<lparr> v_id = 1, v_agent_id = 2, v_target_id = 10,
                         v_target_type = ''post'', v_value = 1 \<rparr>] \<rparr>)
   \<and> stored_votes (snd (vote score_update_fails 10 ''post'' 2 VOTE_UP example_db)) 2 10 ''post'' = [1]
   \<and> target_score (snd (vote score_update_fails 10 ''post'' 2 VOTE_UP example_db)) 10 ''post''
       = target_score example_db 10 ''post''
   \<and> karma_of (snd (vote score_update_fails 10 ''post'' 2 VOTE_UP example_db)) 1 = karma_of example_db 1"
proof -
  have run: "vote score_update_fails 10 ''post'' 2 VOTE_UP example_db
     = (Inl DatabaseError,
        example_db\<lparr> votes := [\<lparr> v_id = 1, v_agent_id = 2, v_target_id = 10,
                         v_target_type = ''post'', v_value = 1 \<rparr>] \<rparr>)"
    by (simp add: vote_def getTarget_def bind_db_def query_def score_update_fails_def
        return_db_def throw_db_def select_vote_def insert_vote_def fresh_vote_id_def
        PostService_updateScore_def VOTE_UP_def example_db_def)
  show ?thesis unfolding run
    by (simp add: stored_votes_def same_triple_def target_score_def karma_of_def example_db_def)
qed

text \<open>
  C5. The tallies of a comment are not kept equal to the numbers of stored votes: a first
  downvote of a comment with tallies 0 and 0 leaves \<^verbatim>\<open>downvotes\<close> at \<open>-1\<close> with one stored
  \<open>-1\<close> vote on the comment.
\<close>

theorem comment_tally_downvote:
  "(case downvoteComment no_faults 20 2 example_db of (r, db') \<Rightarrow>
      (\<exists>res. r = Inr res \<and> action res = ''downvoted'')
      \<and> map (\<lambda>c. (c_upvotes c, c_downvotes c)) (filter (\<lambda>c. c_id c = 20) (comments db')) = [(0, - 1)]
      \<and> length (filter (\<lambda>v. v_target_id v = 20 \<and> v_target_type v = ''comment'' \<and> v_value v = - 1)
                  (votes db')) = 1)"
  by (simp add: downvoteComment_def vote_def getTarget_def bind_db_def query_def no_faults_def
      return_db_def throw_db_def select_vote_def insert_vote_def fresh_vote_id_def
      CommentService_updateScore_def AgentService_updateKarma_def AgentService_findById_def
      VOTE_UP_def VOTE_DOWN_def example_db_def same_triple_def Let_def)

text \<open>
  C6. \<open>getVotes\<close> calls \<^verbatim>\<open>queryAll\<close>, a name its module does not bind: asked for one post
  on which the agent has a stored vote, it throws a \<^verbatim>\<open>ReferenceError\<close> and returns no map.
\<close>

theorem getVotes_throws:
  "stored_votes voted_db 2 10 ''post'' = [1]
   \<and> getVotes no_faults 2 [\<lparr> vt_targetId = 10, vt_targetType = ''post'' \<rparr>] voted_db
       = (Inl (ReferenceError ''queryAll''), voted_db)"
  by (simp add: getVotes_def lookup_identifier_def VoteService_scope_def bind_db_def
      throw_db_def return_db_def stored_votes_def same_triple_def voted_db_def example_db_def)

section \<open>Properties of the comment service\<close>

lemma first_pass_snoc:
  "first_pass (xs @ [x]) =
     (first_pass xs)\<lparr> replies := replies (first_pass xs) @ [[]],
                       commentMap := (commentMap (first_pass xs))(n_id x \<mapsto> length xs) \<rparr>"
  by (simp add: first_pass_def enumerate_append_eq)

lemma first_pass_replies: "replies (first_pass cs) = replicate (length cs) []"
proof (induction cs rule: rev_induct)
  case Nil
  show ?case by (simp add: first_pass_def)
next
  case (snoc x xs)
  then show ?case by (simp add: first_pass_snoc replicate_append_same)
qed

lemma first_pass_roots: "rootComments (first_pass cs) = []"
proof (induction cs rule: rev_induct)
  case Nil
  show ?case by (simp add: first_pass_def)
next
  case (snoc x xs)
  then show ?case by (simp add: first_pass_snoc)
qed

lemma first_pass_absent:
  "k \<notin> set (map n_id cs) \<Longrightarrow> commentMap (first_pass cs) k = None"
proof (induction cs rule: rev_induct)
  case Nil
  show ?case by (simp add: first_pass_def)
next
  case (snoc x xs)
  then show ?case by (simp add: first_pass_snoc)
qed

lemma first_pass_present:
  "distinct (map n_id cs) \<Longrightarrow> i < length cs \<Longrightarrow> commentMap (first_pass cs) (n_id (cs ! i)) = Some i"
proof (induction cs rule: rev_induct)
  case Nil
  then show ?case by simp
next
  case (snoc x xs)
  show ?case
  proof (cases "i < length xs")
    case True
    then have "n_id (xs ! i) \<in> set (map n_id xs)" by simp
    then have "n_id (xs ! i) \<noteq> n_id x" using snoc.prems(1) by auto
    moreover have "commentMap (first_pass xs) (n_id (xs ! i)) = Some i"
      using snoc.IH snoc.prems(1) True by simp
    ultimately show ?thesis using True by (simp add: first_pass_snoc nth_append)
  next
    case False
    then have "i = length xs" using snoc.prems(2) by simp
    then show ?thesis by (simp add: first_pass_snoc)
  qed
qed

lemma first_pass_lookup:
  assumes "distinct (map n_id cs)" and "commentMap (first_pass cs) p = Some a"
  shows "a < length cs \<and> n_id (cs ! a) = p"
proof -
  have "p \<in> set (map n_id cs)"
    using assms(2) first_pass_absent [of p cs] by (cases "p \<in> set (map n_id cs)") auto
  then obtain i where i: "i < length cs" "n_id (cs ! i) = p"
    by (auto simp: in_set_conv_nth)
  then have "commentMap (first_pass cs) p = Some i"
    using first_pass_present [OF assms(1), of i] by simp
  then show ?thesis using assms(2) i by simp
qed

lemma second_pass_prefix:
  assumes d: "distinct (map n_id cs)" and k: "k \<le> length cs"
  shows "commentMap (fold place (enumerate 0 (take k cs)) (first_pass cs)) = commentMap (first_pass cs)
       \<and> rootComments (fold place (enumerate 0 (take k cs)) (first_pass cs)) = expected_roots cs k
       \<and> length (replies (fold place (enumerate 0 (take k cs)) (first_pass cs))) = length cs
       \<and> (\<forall>i < length cs. replies (fold place (enumerate 0 (take k cs)) (first_pass cs)) ! i
                              = expected_replies cs k i)"
  using k
proof (induction k)
  case 0
  show ?case
    by (simp add: first_pass_roots first_pass_replies expected_roots_def expected_replies_def)
next
  case (Suc k)
  let ?s = "fold place (enumerate 0 (take k cs)) (first_pass cs)"
  have klt: "k < length cs" using Suc.prems by simp
  have ih: "commentMap ?s = commentMap (first_pass cs)"
    "rootComments ?s = expected_roots cs k"
    "length (replies ?s) = length cs"
    "\<And>i. i < length cs \<Longrightarrow> replies ?s ! i = expected_replies cs k i"
    using Suc.IH klt by simp_all
  have step: "fold place (enumerate 0 (take (Suc k) cs)) (first_pass cs) = place (k, cs ! k) ?s"
    using klt by (simp add: take_Suc_conv_app_nth enumerate_append_eq)
  have roots_keep: "expected_roots cs (Suc k) = expected_roots cs k" if "parent_present cs (cs ! k)"
    using that by (simp add: expected_roots_def)
  have roots_grow: "expected_roots cs (Suc k) = expected_roots cs k @ [k]"
    if "\<not> parent_present cs (cs ! k)"
    using that by (simp add: expected_roots_def)
  have rep_keep: "expected_replies cs (Suc k) i = expected_replies cs k i"
    if "\<not> child_of (cs ! i) (cs ! k)" for i
    using that by (simp add: expected_replies_def)
  have rep_grow: "expected_replies cs (Suc k) i = expected_replies cs k i @ [k]"
    if "child_of (cs ! i) (cs ! k)" for i
    using that by (simp add: expected_replies_def)
  show ?case
  proof (cases "n_parent_id (cs ! k)")
    case None
    have np: "\<not> parent_present cs (cs ! k)" using None by (simp add: parent_present_def)
    have nc: "\<not> child_of (cs ! i) (cs ! k)" for i using None by (simp add: child_of_def)
    have pl: "place (k, cs ! k) ?s = ?s\<lparr> rootComments := rootComments ?s @ [k] \<rparr>"
      using None by (simp add: place_def)
    show ?thesis unfolding step pl
      using ih roots_grow [OF np] rep_keep [OF nc] by simp
  next
    case (Some p)
    show ?thesis
    proof (cases "commentMap (first_pass cs) p")
      case None
      have np: "\<not> parent_present cs (cs ! k)"
      proof
        assume "parent_present cs (cs ! k)"
        then have pin: "p \<in> set (map n_id cs)"
          using Some by (simp add: parent_present_def)
        from pin obtain i where "i < length cs" "n_id (cs ! i) = p"
          by (auto simp: in_set_conv_nth)
        then have "commentMap (first_pass cs) p = Some i"
          using first_pass_present [OF d, of i] by simp
        then show False using None by simp
      qed
      have nc: "\<not> child_of (cs ! i) (cs ! k)" if "i < length cs" for i
      proof
        assume c: "child_of (cs ! i) (cs ! k)"
        then have "n_id (cs ! i) = p" using Some by (auto simp: child_of_def)
        then have "commentMap (first_pass cs) p = Some i"
          using first_pass_present [OF d that] by simp
        then show False using None by simp
      qed
      have pl: "place (k, cs ! k) ?s = ?s\<lparr> rootComments := rootComments ?s @ [k] \<rparr>"
        using Some None ih(1) by (simp add: place_def)
      show ?thesis unfolding step pl
        using ih roots_grow [OF np] rep_keep [OF nc] by simp
    next
      case a: (Some a)
      from first_pass_lookup [OF d a] have alt: "a < length cs" and aid: "n_id (cs ! a) = p"
        by simp_all
      have pp: "parent_present cs (cs ! k)"
        using Some alt aid by (auto simp: parent_present_def)
      have ca: "child_of (cs ! a) (cs ! k)" using Some aid by (simp add: child_of_def)
      have nc: "\<not> child_of (cs ! i) (cs ! k)" if "i < length cs" "i \<noteq> a" for i
      proof
        assume "child_of (cs ! i) (cs ! k)"
        then have "n_id (cs ! i) = n_id (cs ! a)" using Some aid by (simp add: child_of_def)
        then have "i = a"
          using nth_eq_iff_index_eq [OF d, of i a] that(1) alt by simp
        then show False using that(2) by simp
      qed
      have pl: "place (k, cs ! k) ?s = ?s\<lparr> replies := (replies ?s)[a := replies ?s ! a @ [k]] \<rparr>"
        using Some a ih(1) by (simp add: place_def)
      have "replies (place (k, cs ! k) ?s) ! i = expected_replies cs (Suc k) i"
        if "i < length cs" for i
      proof (cases "i = a")
        case True
        then show ?thesis unfolding pl
          using ih(3) ih(4) [OF alt] alt rep_grow [OF ca] by simp
      next
        case False
        then show ?thesis unfolding pl
          using ih(4) [OF that] rep_keep [OF nc [OF that False]] by simp
      qed
      moreover have "rootComments (place (k, cs ! k) ?s) = expected_roots cs (Suc k)"
        unfolding pl using ih(2) roots_keep [OF pp] by simp
      moreover have "commentMap (place (k, cs ! k) ?s) = commentMap (first_pass cs)"
        unfolding pl using ih(1) by simp
      moreover have "length (replies (place (k, cs ! k) ?s)) = length cs"
        unfolding pl using ih(3) by simp
      ultimately show ?thesis unfolding step by blast
    qed
  qed
qed

text \<open>
  C9. For an input with pairwise distinct ids, every node gets a \<^verbatim>\<open>replies\<close> list, and each
  node, in input order, is appended to the \<^verbatim>\<open>replies\<close> of its parent when a node with its
  parent id is present in the input, and is put in the returned root list otherwise. So a
  node whose parent id is absent from the input is a root, and the specification's
  example yields the root 1 with replies 2 and 3, and 4 under 2.
\<close>

theorem buildCommentTree_shape:
  assumes "distinct (map n_id cs)"
  shows "rootComments (buildCommentTree cs) = expected_roots cs (length cs)
       \<and> length (replies (buildCommentTree cs)) = length cs
       \<and> (\<forall>i < length cs. replies (buildCommentTree cs) ! i = expected_replies cs (length cs) i)"
  using second_pass_prefix [OF assms, of "length cs"]
  by (simp add: buildCommentTree_def)

lemma spec_example_nodes:
  "n_id (node i p d) = i" "n_parent_id (node i p d) = p"
  by (simp_all add: node_def)

theorem buildCommentTree_shape_witness:
  "distinct (map n_id spec_example)
   \<and> rootComments (buildCommentTree spec_example) = [0]
   \<and> map (\<lambda>a. n_id (spec_example ! a)) (rootComments (buildCommentTree spec_example)) = [1]
   \<and> length (replies (buildCommentTree spec_example)) = 4
   \<and> replies (buildCommentTree spec_example) ! 0 = [1, 2]
   \<and> replies (buildCommentTree spec_example) ! 1 = [3]
   \<and> replies (buildCommentTree spec_example) ! 2 = []
   \<and> replies (buildCommentTree spec_example) ! 3 = []
   \<and> distinct (map n_id orphan_example)
   \<and> rootComments (buildCommentTree orphan_example) = [0]
   \<and> replies (buildCommentTree orphan_example) ! 0 = [1]
   \<and> replies (buildCommentTree orphan_example) ! 1 = []"
proof -
  have d: "distinct (map n_id spec_example)"
    by (simp add: spec_example_def spec_example_nodes)
  have len: "length spec_example = 4" by (simp add: spec_example_def)
  have up: "[0..<4] = [0, 1, 2, 3]" by (simp add: upt_rec)
  have roots: "expected_roots spec_example 4 = [0]"
    unfolding expected_roots_def up
    by (simp add: spec_example_def parent_present_def spec_example_nodes)
  have r: "expected_replies spec_example 4 0 = [1, 2]"
    "expected_replies spec_example 4 1 = [3]"
    "expected_replies spec_example 4 2 = []"
    "expected_replies spec_example 4 3 = []"
    unfolding expected_replies_def up
    by (simp_all add: spec_example_def child_of_def spec_example_nodes)
  from buildCommentTree_shape [OF d, unfolded len]
  have one: "rootComments (buildCommentTree spec_example) = expected_roots spec_example 4"
    "length (replies (buildCommentTree spec_example)) = 4"
    "\<forall>i<4. replies (buildCommentTree spec_example) ! i = expected_replies spec_example 4 i"
    by simp_all
  have d': "distinct (map n_id orphan_example)"
    by (simp add: orphan_example_def spec_example_nodes)
  have len': "length orphan_example = 2" by (simp add: orphan_example_def)
  have up': "[0..<2] = [0, 1]" by (simp add: upt_rec)
  have roots': "expected_roots orphan_example 2 = [0]"
    unfolding expected_roots_def up'
    by (simp add: orphan_example_def parent_present_def spec_example_nodes)
  have r': "expected_replies orphan_example 2 0 = [1]"
    "expected_replies orphan_example 2 1 = []"
    unfolding expected_replies_def up'
    by (simp_all add: orphan_example_def child_of_def spec_example_nodes)
  from buildCommentTree_shape [OF d', unfolded len']
  have two: "rootComments (buildCommentTree orphan_example) = expected_roots orphan_example 2"
    "\<forall>i<2. replies (buildCommentTree orphan_example) ! i = expected_replies orphan_example 2 i"
    by simp_all
  have first: "distinct (map n_id spec_example)
   \<and> rootComments (buildCommentTree spec_example) = [0]
   \<and> map (\<lambda>a. n_id (spec_example ! a)) (rootComments (buildCommentTree spec_example)) = [1]
   \<and> length (replies (buildCommentTree spec_example)) = 4
   \<and> replies (buildCommentTree spec_example) ! 0 = [1, 2]
   \<and> replies (buildCommentTree spec_example) ! 1 = [3]
   \<and> replies (buildCommentTree spec_example) ! 2 = []
   \<and> replies (buildCommentTree spec_example) ! 3 = []"
    using one d roots r by (simp add: spec_example_def spec_example_nodes)
  have second: "distinct (map n_id orphan_example)
   \<and> rootComments (buildCommentTree orphan_example) = [0]
   \<and> replies (buildCommentTree orphan_example) ! 0 = [1]
   \<and> replies (buildCommentTree orphan_example) ! 1 = []"
    using two d' roots' r' by simp
  show ?thesis using first second by blast
qed

text \<open>
  C8. The sort key of the mode \<^verbatim>\<open>controversial\<close> is not the rational controversy score: the
  division is integer division. For 3 upvotes and 1 downvote the key is 4 and the score 2;
  for no votes both are 0; and the key ranks 100 against 1 above 50 against 49, which the
  score ranks the other way round.
\<close>

theorem controversial_key_truncates:
  "controversial_key 3 1 = 4 \<and> controversy_spec 3 1 = 2
   \<and> controversial_key 0 0 = 0 \<and> controversy_spec 0 0 = 0
   \<and> controversial_key 50 49 < controversial_key 100 1
   \<and> controversy_spec 100 1 < controversy_spec 50 49"
  by (simp add: controversial_key_def controversy_spec_def sql_div_def)

lemma select_comments_sorted:
  "sorted (map (order_key sort_mode) (select_comments postId sort_mode lmt db))"
  unfolding select_comments_def take_map [symmetric]
  by (rule sorted_wrt_take) (rule sorted_sort_key)

text \<open>
  C7 (as amended). For every post, sort mode and limit, the list \<open>getByPost\<close> hands to
  \<open>buildCommentTree\<close> is the result of the listing query, ordered by ascending depth first
  and by the key of the sort mode second: of two rows the earlier is no deeper, and at
  equal depth it has the smaller mode key; a row of smaller depth comes before every row
  of greater depth, so a parent is visited before its children.
\<close>

theorem getByPost_depth_first:
  "fst (getByPost no_faults postId sort_mode lmt db)
     = Inr (select_comments postId sort_mode lmt db,
            buildCommentTree (select_comments postId sort_mode lmt db))
   \<and> sorted (map (order_key sort_mode) (select_comments postId sort_mode lmt db))
   \<and> (\<forall>i j. i < j \<and> j < length (select_comments postId sort_mode lmt db) \<longrightarrow>
         n_depth (select_comments postId sort_mode lmt db ! i)
           \<le> n_depth (select_comments postId sort_mode lmt db ! j)
         \<and> (n_depth (select_comments postId sort_mode lmt db ! i)
              = n_depth (select_comments postId sort_mode lmt db ! j) \<longrightarrow>
            mode_key sort_mode (select_comments postId sort_mode lmt db ! i)
              \<le> mode_key sort_mode (select_comments postId sort_mode lmt db ! j)))
   \<and> (\<forall>i j. i < length (select_comments postId sort_mode lmt db)
            \<and> j < length (select_comments postId sort_mode lmt db)
            \<and> n_depth (select_comments postId sort_mode lmt db ! i)
                < n_depth (select_comments postId sort_mode lmt db ! j) \<longrightarrow> i < j)"
proof -
  let ?rs = "select_comments postId sort_mode lmt db"
  have run: "fst (getByPost no_faults postId sort_mode lmt db) = Inr (?rs, buildCommentTree ?rs)"
    by (simp add: getByPost_def bind_db_def query_def no_faults_def return_db_def)
  have srt: "sorted (map (order_key sort_mode) ?rs)" by (rule select_comments_sorted)
  have mono: "order_key sort_mode (?rs ! i) \<le> order_key sort_mode (?rs ! j)"
    if "i \<le> j" "j < length ?rs" for i j
    using srt that by (simp add: sorted_iff_nth_mono)
  have A: "n_depth (?rs ! i) \<le> n_depth (?rs ! j)
         \<and> (n_depth (?rs ! i) = n_depth (?rs ! j) \<longrightarrow>
              mode_key sort_mode (?rs ! i) \<le> mode_key sort_mode (?rs ! j))"
    if "i < j \<and> j < length ?rs" for i j
    using mono [of i j] that by (auto simp: order_key_def)
  have B: "i < j"
    if "i < length ?rs \<and> j < length ?rs \<and> n_depth (?rs ! i) < n_depth (?rs ! j)" for i j
  proof (rule ccontr)
    assume "\<not> i < j"
    then have "j \<le> i" by simp
    then have "order_key sort_mode (?rs ! j) \<le> order_key sort_mode (?rs ! i)"
      using mono [of j i] that by simp
    then show False using that by (auto simp: order_key_def)
  qed
  show ?thesis using run srt A B by blast
qed

lemma thread_rows:
  "select_comments 10 ''top'' 100 thread_db
     = [\<lparr> n_id = 20, n_score = 1, n_upvotes = 1, n_downvotes = 0, n_parent_id = None,
          n_depth = 0, n_created_at = 0, n_author_name = ''alice'' \<rparr>,
        \<lparr> n_id = 21, n_score = 5, n_upvotes = 5, n_downvotes = 0, n_parent_id = Some 20,
          n_depth = 1, n_created_at = 1, n_author_name = ''bob'' \<rparr>]"
  by (simp add: select_comments_def thread_db_def example_db_def order_key_def mode_key_def)

theorem getByPost_depth_first_witness:
  "select_comments 10 ''top'' 100 thread_db
     = [\<lparr> n_id = 20, n_score = 1, n_upvotes = 1, n_downvotes = 0, n_parent_id = None,
          n_depth = 0, n_created_at = 0, n_author_name = ''alice'' \<rparr>,
        \<lparr> n_id = 21, n_score = 5, n_upvotes = 5, n_downvotes = 0, n_parent_id = Some 20,
          n_depth = 1, n_created_at = 1, n_author_name = ''bob'' \<rparr>]
   \<and> (0::nat) < 1 \<and> 1 < length (select_comments 10 ''top'' 100 thread_db)
   \<and> n_depth (select_comments 10 ''top'' 100 thread_db ! 0)
       \<le> n_depth (select_comments 10 ''top'' 100 thread_db ! 1)
   \<and> sorted (map (order_key ''top'') (select_comments 10 ''top'' 100 thread_db))"
proof -
  have "(0::nat) < 1 \<and> 1 < length (select_comments 10 ''top'' 100 thread_db)"
    by (simp add: thread_rows)
  then show ?thesis
    using getByPost_depth_first [of 10 "''top''" 100 thread_db] thread_rows by blast
qed

text \<open>
  The claim as worded, with the key of the sort mode first and the depth second, fails:
  in mode \<^verbatim>\<open>top\<close> a comment of score 1 is listed before its reply of score 5.
\<close>

theorem getByPost_not_mode_first:
  "\<not> sorted (map (claimed_order_key ''top'') (select_comments 10 ''top'' 100 thread_db))"
  unfolding thread_rows by (simp add: claimed_order_key_def mode_key_def)

end
